theory Spec2Isabelle
  imports Main
begin

section \<open>The Server endpoint of react-native-usb-serialport\<close>

text \<open>
  A shallow embedding of class \<open>Server\<close> (the second document of
  \<^verbatim>\<open>src/types/index.d.ts\<close>). Every method becomes a function that takes the
  state and returns the effects it caused, in order, together with the new state.

  What lies outside the class is modelled as follows.
  \<^item> The native sink \<open>Sockets\<close> accepts the commands \<open>listen\<close> and \<open>close\<close> and returns;
    each call is recorded as an effect.
  \<^item> \<open>EventEmitter\<close> (eventemitter3): \<open>emit\<close> calls the listeners of the event in the
    order of their registration, a \<open>once\<close> listener is removed when it is called, and an
    \<open>error\<close> event without listeners does not throw. Each \<open>emit\<close> is recorded as an
    effect: it is the public notification that application listeners observe.
  \<^item> Callbacks passed in by the application are opaque: a call of one is recorded as an
    effect, and it is taken not to call back into the Server or to throw.
  \<^item> JavaScript numbers that hold ids and ports are integers.
\<close>

subsection \<open>Data\<close>

type_synonym callback = nat

datatype error = ERR_SERVER_ALREADY_LISTEN | ERR_SERVER_NOT_RUNNING

text \<open>The parameter of \<open>listen\<close>: \<open>{ port: number; host?: string; reuseAddress?: boolean }\<close>.\<close>

record ListenOptions =
  port :: int
  host :: "string option"
  reuseAddress :: "bool option"

text \<open>The result of \<open>address()\<close>: \<open>{ address, port, family }\<close>.\<close>

record AddressInfo =
  ai_address :: string
  ai_port :: int
  ai_family :: string

text \<open>The payload \<open>evt.connection\<close> of a native \<open>listening\<close> event.\<close>

record NativeConnection =
  evt_localAddress :: string
  evt_localPort :: int
  evt_localFamily :: string

text \<open>
  The payload \<open>evt.info\<close> of a native \<open>connection\<close> event. Its type
  \<open>NativeConnectionInfo\<close> is declared in \<^verbatim>\<open>./Socket\<close>, which is not among the
  sources; the two fields are the ones the disabled lines of \<open>_buildSocket\<close> read.
\<close>

record NativeConnectionInfo =
  info_id :: int
  info_connection :: NativeConnection

text \<open>
  Modelled from the spec: class \<open>Socket\<close> (\<^verbatim>\<open>./Socket\<close>) is not among the sources.
  A Socket is an object with an identity (here a heap reference) whose address metadata
  is undefined until a connected event arrives; \<open>new Socket()\<close> takes no argument.
\<close>

record Socket =
  sock_ref :: nat
  sock_connection :: "NativeConnection option"

datatype NativeEventName = ListeningEvent | ErrorEvent | ConnectionEvent

text \<open>The listeners of the public \<open>close\<close> event that the class itself registers.\<close>

datatype CloseListener = SetDisconnected | OnceClose callback

text \<open>
  The fields of the class. \<open>nativeSubscriptions\<close> are the subscriptions this Server
  holds on the shared \<open>NativeEventEmitter\<close>; \<open>errorListener\<close> and \<open>connectionsListener\<close>
  are the two handles the class keeps. The three listener lists are the listeners that
  the class registers on itself: the \<open>connection\<close> callback of the constructor, the
  \<open>once\<close> closures of \<open>listen\<close> (each with its optional callback) and the listeners of
  \<open>close\<close>.
\<close>

record Server =
  srv_id :: int
  nativeSubscriptions :: "NativeEventName list"
  connections :: "Socket list"
  localAddress :: "string option"
  localPort :: "int option"
  localFamily :: "string option"
  listening :: bool
  errorListener :: "NativeEventName option"
  connectionsListener :: "NativeEventName option"
  connectionListeners :: "callback list"
  listeningListeners :: "callback option list"
  closeListeners :: "CloseListener list"

text \<open>
  The objects outside the Server that its methods read or create: the options objects
  of the callers (\<open>objects\<close>, by reference), the next free reference, and the Sockets on
  which the Server has registered its \<open>close\<close> listener (the closure captures the Socket).
\<close>

record Heap =
  next_ref :: nat
  objects :: "nat \<Rightarrow> ListenOptions"
  closeHandlers :: "Socket list"

datatype Effect =
    NativeListen int ListenOptions
  | NativeClose int
  | ConsoleWarn NativeConnectionInfo
  | EmitListening
  | EmitConnection Socket
  | EmitError string
  | EmitClose
  | ListenCallback callback
  | ConnectionCallback callback Socket
  | CloseCallback callback "error option"
  | GetConnectionsCallback callback "error option" nat
  | Throw error

datatype NativeEvent =
    Listening int NativeConnection
  | Error int string
  | Connection int NativeConnectionInfo

subsection \<open>JavaScript values\<close>

text \<open>\<open>!x\<close> for \<open>x: string | undefined\<close>: true for \<open>undefined\<close> and for the empty string.\<close>

definition falsy :: "string option \<Rightarrow> bool" where
  "falsy x = (case x of None \<Rightarrow> True | Some v \<Rightarrow> v = [])"

text \<open>\<open>x || d\<close> for \<open>x: string | undefined\<close>.\<close>

definition or_default :: "string option \<Rightarrow> string \<Rightarrow> string" where
  "or_default x d = (case x of None \<Rightarrow> d | Some v \<Rightarrow> if v = [] then d else v)"

text \<open>\<open>Set<Socket>\<close>: insertion order, no duplicates.\<close>

definition set_add :: "'a \<Rightarrow> 'a list \<Rightarrow> 'a list" where
  "set_add x xs = (if x \<in> set xs then xs else xs @ [x])"

definition set_delete :: "'a \<Rightarrow> 'a list \<Rightarrow> 'a list" where
  "set_delete x xs = removeAll x xs"

definition set_size :: "'a list \<Rightarrow> nat" where
  "set_size xs = length xs"

subsection \<open>Emitting the public events\<close>

text \<open>
  The closure that \<open>listen\<close> registers with \<open>once\<close>:
  \<^verbatim>\<open>() => { this.listening = true; if (callback) callback(); }\<close>
\<close>

fun run_listening_listeners :: "callback option list \<Rightarrow> Server \<Rightarrow> Effect list \<times> Server" where
  "run_listening_listeners [] s = ([], s)"
| "run_listening_listeners (cb # ls) s =
     (let s1 = s\<lparr>listening := True\<rparr>;
          fx1 = (case cb of None \<Rightarrow> [] | Some c \<Rightarrow> [ListenCallback c]);
          (fx2, s2) = run_listening_listeners ls s1
      in (fx1 @ fx2, s2))"

definition emit_listening :: "Server \<Rightarrow> Effect list \<times> Server" where
  "emit_listening s =
     (let ls = listeningListeners s;
          (fx, s1) = run_listening_listeners ls (s\<lparr>listeningListeners := []\<rparr>)
      in (EmitListening # fx, s1))"

definition setDisconnected :: "Server \<Rightarrow> Server" where
  "setDisconnected s = s\<lparr>localAddress := None, localPort := None, localFamily := None\<rparr>"

fun run_close_listeners :: "CloseListener list \<Rightarrow> Server \<Rightarrow> Effect list \<times> Server" where
  "run_close_listeners [] s = ([], s)"
| "run_close_listeners (SetDisconnected # ls) s = run_close_listeners ls (setDisconnected s)"
| "run_close_listeners (OnceClose c # ls) s =
     (let (fx, s1) = run_close_listeners ls s in (CloseCallback c None # fx, s1))"

definition emit_close :: "Server \<Rightarrow> Effect list \<times> Server" where
  "emit_close s =
     (let ls = closeListeners s;
          (fx, s1) = run_close_listeners ls (s\<lparr>closeListeners := filter (\<lambda>l. l = SetDisconnected) ls\<rparr>)
      in (EmitClose # fx, s1))"

definition emit_connection :: "Socket \<Rightarrow> Server \<Rightarrow> Effect list \<times> Server" where
  "emit_connection newSocket s =
     (EmitConnection newSocket # map (\<lambda>c. ConnectionCallback c newSocket) (connectionListeners s), s)"

definition emit_error :: "string \<Rightarrow> Server \<Rightarrow> Effect list \<times> Server" where
  "emit_error e s = ([EmitError e], s)"

subsection \<open>The methods\<close>

text \<open>
  \<open>_registerEvents\<close>: three subscriptions. The handle of the first one (\<open>listening\<close>) is
  stored in \<open>_errorListener\<close> and then overwritten by the handle of the second.
\<close>

definition registerEvents :: "Server \<Rightarrow> Server" where
  "registerEvents s =
     (let s1 = s\<lparr>nativeSubscriptions := nativeSubscriptions s @ [ListeningEvent],
                 errorListener := Some ListeningEvent\<rparr>;
          s2 = s1\<lparr>nativeSubscriptions := nativeSubscriptions s1 @ [ErrorEvent],
                  errorListener := Some ErrorEvent\<rparr>
      in s2\<lparr>nativeSubscriptions := nativeSubscriptions s2 @ [ConnectionEvent],
            connectionsListener := Some ConnectionEvent\<rparr>)"

text \<open>The constructor; \<open>i\<close> is the value that \<open>getNextId()\<close> returned.\<close>

definition Server_new :: "int \<Rightarrow> callback option \<Rightarrow> Server" where
  "Server_new i connectionCallback =
     (let s = registerEvents
           \<lparr>srv_id = i, nativeSubscriptions = [], connections = [],
            localAddress = None, localPort = None, localFamily = None, listening = False,
            errorListener = None, connectionsListener = None,
            connectionListeners = [], listeningListeners = [], closeListeners = []\<rparr>;
          s1 = (case connectionCallback of None \<Rightarrow> s
                | Some c \<Rightarrow> s\<lparr>connectionListeners := connectionListeners s @ [c]\<rparr>)
      in s1\<lparr>closeListeners := closeListeners s1 @ [SetDisconnected]\<rparr>)"

text \<open>\<open>createServer(connectionListener)\<close> of the module's entry point.\<close>

definition createServer :: "int \<Rightarrow> callback option \<Rightarrow> Server" where
  "createServer i connectionListener = Server_new i connectionListener"

text \<open>
  \<open>listen(options, callback)\<close>. The caller's object is \<open>objects h options\<close>;
  \<open>{ ...options }\<close> allocates a new object with the same fields, and the default of
  \<open>host\<close> is written to the new object.
\<close>

definition listen :: "nat \<Rightarrow> callback option \<Rightarrow> Heap \<times> Server \<Rightarrow> error + (Effect list \<times> Heap \<times> Server)" where
  "listen options callback hs =
     (case hs of (h, s) \<Rightarrow>
        if localAddress s \<noteq> None then Inl ERR_SERVER_ALREADY_LISTEN
        else
          let gotOptions = next_ref h;
              h1 = h\<lparr>next_ref := Suc (next_ref h),
                     objects := (objects h)(gotOptions := objects h options)\<rparr>;
              h2 = h1\<lparr>objects := (objects h1)(gotOptions := (objects h1 gotOptions)
                      \<lparr>host := Some (or_default (host (objects h1 gotOptions)) ''0.0.0.0'')\<rparr>)\<rparr>;
              s1 = s\<lparr>listeningListeners := listeningListeners s @ [callback]\<rparr>
          in Inr ([NativeListen (srv_id s) (objects h2 gotOptions)], h2, s1))"

definition getConnections :: "callback \<Rightarrow> Server \<Rightarrow> Effect list \<times> Server" where
  "getConnections callback s =
     ([GetConnectionsCallback callback None (set_size (connections s))], s)"

definition close :: "callback option \<Rightarrow> Server \<Rightarrow> Effect list \<times> Server" where
  "close callback s =
     (if falsy (localAddress s)
      then ((case callback of None \<Rightarrow> [] | Some c \<Rightarrow> [CloseCallback c (Some ERR_SERVER_NOT_RUNNING)]), s)
      else
        let s1 = (case callback of None \<Rightarrow> s
                  | Some c \<Rightarrow> s\<lparr>closeListeners := closeListeners s @ [OnceClose c]\<rparr>);
            s2 = s1\<lparr>listening := False\<rparr>
        in ([NativeClose (srv_id s)], s2))"

definition address :: "Server \<Rightarrow> AddressInfo option" where
  "address s =
     (if falsy (localAddress s) then None
      else case (localAddress s, localPort s, localFamily s) of
             (Some a, Some p, Some f) \<Rightarrow> Some \<lparr>ai_address = a, ai_port = p, ai_family = f\<rparr>
           | _ \<Rightarrow> None)"

text \<open>\<open>subscription.remove()\<close> on an optional handle.\<close>

definition remove_subscription :: "NativeEventName option \<Rightarrow> Server \<Rightarrow> Server" where
  "remove_subscription l s =
     (case l of None \<Rightarrow> s
      | Some n \<Rightarrow> s\<lparr>nativeSubscriptions := removeAll n (nativeSubscriptions s)\<rparr>)"

definition destroy :: "Server \<Rightarrow> Effect list \<times> Server" where
  "destroy s =
     (let (fx, s1) = emit_close s;
          s2 = remove_subscription (errorListener s1) s1;
          s3 = remove_subscription (connectionsListener s2) s2
      in (fx, s3))"

definition buildSocket :: "NativeConnectionInfo \<Rightarrow> Heap \<Rightarrow> Effect list \<times> Socket \<times> Heap" where
  "buildSocket info h =
     ([ConsoleWarn info],
      \<lparr>sock_ref = next_ref h, sock_connection = None\<rparr>,
      h\<lparr>next_ref := Suc (next_ref h)\<rparr>)"

subsection \<open>The handlers of \<open>_registerEvents\<close>\<close>

definition listening_handler :: "int \<Rightarrow> NativeConnection \<Rightarrow> Server \<Rightarrow> Effect list \<times> Server" where
  "listening_handler evt_id c s =
     (if evt_id \<noteq> srv_id s then ([], s)
      else emit_listening
             (s\<lparr>localAddress := Some (evt_localAddress c),
                localPort := Some (evt_localPort c),
                localFamily := Some (evt_localFamily c)\<rparr>))"

definition error_handler :: "int \<Rightarrow> string \<Rightarrow> Server \<Rightarrow> Effect list \<times> Server" where
  "error_handler evt_id e s =
     (if evt_id \<noteq> srv_id s then ([], s)
      else
        let (fx1, s1) = close None s;
            (fx2, s2) = emit_error e s1
        in (fx1 @ fx2, s2))"

text \<open>The listener registered on every accepted Socket for its \<open>close\<close> event.\<close>

definition socket_close_handler :: "Socket \<Rightarrow> Server \<Rightarrow> Effect list \<times> Server" where
  "socket_close_handler newSocket s =
     (let s1 = s\<lparr>connections := set_delete newSocket (connections s)\<rparr>
      in if \<not> listening s1 \<and> set_size (connections s1) = 0 then emit_close s1 else ([], s1))"

definition connection_handler ::
    "int \<Rightarrow> NativeConnectionInfo \<Rightarrow> Heap \<times> Server \<Rightarrow> Effect list \<times> Heap \<times> Server" where
  "connection_handler evt_id info hs =
     (case hs of (h, s) \<Rightarrow>
        if evt_id \<noteq> srv_id s then ([], h, s)
        else
          let (fx1, newSocket, h1) = buildSocket info h;
              h2 = h1\<lparr>closeHandlers := closeHandlers h1 @ [newSocket]\<rparr>;
              s1 = s\<lparr>connections := set_add newSocket (connections s)\<rparr>;
              (fx2, s2) = emit_connection newSocket s1
          in (fx1 @ fx2, h2, s2))"

subsection \<open>Running the Server\<close>

text \<open>
  The shared native emitter delivers an event to the handler of a Server while the
  Server's subscription for that event is installed.
\<close>

definition dispatch :: "NativeEvent \<Rightarrow> Heap \<times> Server \<Rightarrow> Effect list \<times> Heap \<times> Server" where
  "dispatch evt hs =
     (case hs of (h, s) \<Rightarrow>
        (case evt of
           Listening i c \<Rightarrow>
             if ListeningEvent \<in> set (nativeSubscriptions s)
             then (let (fx, s1) = listening_handler i c s in (fx, h, s1)) else ([], h, s)
         | Error i e \<Rightarrow>
             if ErrorEvent \<in> set (nativeSubscriptions s)
             then (let (fx, s1) = error_handler i e s in (fx, h, s1)) else ([], h, s)
         | Connection i info \<Rightarrow>
             if ConnectionEvent \<in> set (nativeSubscriptions s)
             then connection_handler i info (h, s) else ([], h, s)))"

text \<open>
  What can happen to a Server: a call of a public method, a native event, or the
  \<open>close\<close> event of a Socket. A Socket's \<open>close\<close> reaches the Server when the Server's
  listener is registered on that Socket.
\<close>

datatype Action =
    Listen nat "callback option"
  | Close "callback option"
  | GetConnections callback
  | Destroy
  | Native NativeEvent
  | SocketClose Socket

definition step :: "Action \<Rightarrow> Heap \<times> Server \<Rightarrow> Effect list \<times> Heap \<times> Server" where
  "step a hs =
     (case hs of (h, s) \<Rightarrow>
        (case a of
           Listen options callback \<Rightarrow>
             (case listen options callback (h, s) of Inl e \<Rightarrow> ([Throw e], h, s) | Inr r \<Rightarrow> r)
         | Close callback \<Rightarrow> (let (fx, s1) = close callback s in (fx, h, s1))
         | GetConnections callback \<Rightarrow> (let (fx, s1) = getConnections callback s in (fx, h, s1))
         | Destroy \<Rightarrow> (let (fx, s1) = destroy s in (fx, h, s1))
         | Native evt \<Rightarrow> dispatch evt (h, s)
         | SocketClose sock \<Rightarrow>
             if sock \<in> set (closeHandlers h)
             then (let (fx, s1) = socket_close_handler sock s in (fx, h, s1)) else ([], h, s)))"

fun run :: "Action list \<Rightarrow> Heap \<times> Server \<Rightarrow> Effect list \<times> Heap \<times> Server" where
  "run [] hs = ([], hs)"
| "run (a # as) hs =
     (let (fx1, hs1) = step a hs;
          (fx2, hs2) = run as hs1
      in (fx1 @ fx2, hs2))"

text \<open>The \<open>id\<close> field that every native event carries.\<close>

definition evt_id :: "NativeEvent \<Rightarrow> int" where
  "evt_id evt = (case evt of Listening i c \<Rightarrow> i | Error i e \<Rightarrow> i | Connection i info \<Rightarrow> i)"

subsection \<open>Example values\<close>

text \<open>
  A heap in which reference 0 is the caller's options object \<open>{port: 12345}\<close>, the
  payload of the \<open>listening\<close> event of the end-to-end scenario, and a \<open>connection\<close>
  payload.
\<close>

definition example_heap :: Heap where
  "example_heap =
     \<lparr>next_ref = 1,
      objects = (\<lambda>_. \<lparr>port = 12345, host = None, reuseAddress = None\<rparr>),
      closeHandlers = []\<rparr>"

definition example_connection :: NativeConnection where
  "example_connection =
     \<lparr>evt_localAddress = ''0.0.0.0'', evt_localPort = 12345, evt_localFamily = ''IPv4''\<rparr>"

definition example_info :: NativeConnectionInfo where
  "example_info = \<lparr>info_id = 9, info_connection = example_connection\<rparr>"

text \<open>
  A Server that has accepted two Sockets (references 2 and 3) and on which \<open>close()\<close>
  has then been called.
\<close>

definition example_closing :: "Heap \<times> Server" where
  "example_closing =
     snd (run [Listen 0 None, Native (Listening 7 example_connection),
               Native (Connection 7 example_info), Native (Connection 7 example_info),
               Close None]
            (example_heap, Server_new 7 None))"

subsection \<open>Predicates used in the properties\<close>

text \<open>
  \<open>address()\<close> returns an object exactly when the three fields pass its two tests.
\<close>

definition metadata_present :: "Server \<Rightarrow> bool" where
  "metadata_present s =
     (\<not> falsy (localAddress s) \<and> localPort s \<noteq> None \<and> localFamily s \<noteq> None)"

text \<open>
  An action other than \<open>destroy()\<close>, and other than a \<open>listening\<close> event whose
  \<open>localAddress\<close> is the empty string.
\<close>

definition ordinary :: "Action \<Rightarrow> bool" where
  "ordinary a = (case a of Destroy \<Rightarrow> False
                 | Native (Listening i c) \<Rightarrow> evt_localAddress c \<noteq> []
                 | _ \<Rightarrow> True)"

text \<open>Every Socket of the connection set was allocated: \<open>new\<close> returns a fresh object.\<close>

definition refs_allocated :: "Heap \<times> Server \<Rightarrow> bool" where
  "refs_allocated hs =
     (case hs of (h, s) \<Rightarrow> list_all (\<lambda>x. sock_ref x < next_ref h) (connections s))"

section \<open>Properties\<close>

lemmas method_defs = listen_def close_def getConnections_def address_def destroy_def
  buildSocket_def Server_new_def registerEvents_def remove_subscription_def
lemmas handler_defs = listening_handler_def error_handler_def socket_close_handler_def
  connection_handler_def dispatch_def
lemmas emit_defs = emit_listening_def emit_close_def emit_connection_def emit_error_def
  setDisconnected_def
lemmas js_defs = falsy_def or_default_def set_add_def set_delete_def set_size_def
lemmas example_defs = example_heap_def example_connection_def example_info_def

subsection \<open>What an \<open>emit\<close> does\<close>

lemma run_listening_listeners_snd:
  "snd (run_listening_listeners ls s) = (if ls = [] then s else s\<lparr>listening := True\<rparr>)"
  by (induction ls arbitrary: s) (simp_all add: Let_def split_beta)

lemma run_listening_listeners_fst:
  "fst (run_listening_listeners ls s) =
     concat (map (\<lambda>cb. case cb of None \<Rightarrow> [] | Some c \<Rightarrow> [ListenCallback c]) ls)"
  by (induction ls arbitrary: s) (simp_all add: Let_def split_beta)

lemma setDisconnected_idem: "setDisconnected (setDisconnected s) = setDisconnected s"
  by (simp add: setDisconnected_def)

lemma run_close_listeners_snd:
  "snd (run_close_listeners ls s) = (if SetDisconnected \<in> set ls then setDisconnected s else s)"
  by (induction ls s rule: run_close_listeners.induct)
     (simp_all add: split_beta setDisconnected_idem)

lemma run_close_listeners_fst:
  "fst (run_close_listeners ls s) =
     concat (map (\<lambda>l. case l of SetDisconnected \<Rightarrow> [] | OnceClose c \<Rightarrow> [CloseCallback c None]) ls)"
  by (induction ls s rule: run_close_listeners.induct) (simp_all add: split_beta)

lemma emit_listening_snd:
  "snd (emit_listening s) =
     s\<lparr>listening := listening s \<or> listeningListeners s \<noteq> [], listeningListeners := []\<rparr>"
  by (simp add: emit_listening_def Let_def split_beta run_listening_listeners_snd)

lemma emit_listening_fst:
  "fst (emit_listening s) =
     EmitListening #
     concat (map (\<lambda>cb. case cb of None \<Rightarrow> [] | Some c \<Rightarrow> [ListenCallback c]) (listeningListeners s))"
  by (simp add: emit_listening_def Let_def split_beta run_listening_listeners_fst)

lemma no_close_in_listening: "EmitClose \<notin> set (fst (emit_listening s))"
  by (auto simp: emit_listening_fst split: option.splits)

lemma emit_close_fst: "EmitClose \<in> set (fst (emit_close s))"
  by (simp add: emit_close_def Let_def split_beta)

lemma emit_close_callbacks:
  "fst (emit_close s) =
     EmitClose #
     concat (map (\<lambda>l. case l of SetDisconnected \<Rightarrow> [] | OnceClose c \<Rightarrow> [CloseCallback c None])
               (closeListeners s))"
  by (simp add: emit_close_def Let_def split_beta run_close_listeners_fst)

lemma emit_close_listening: "listening (snd (emit_close s)) = listening s"
  by (simp add: emit_close_def Let_def split_beta run_close_listeners_snd setDisconnected_def)

lemma emit_close_connections: "connections (snd (emit_close s)) = connections s"
  by (simp add: emit_close_def Let_def split_beta run_close_listeners_snd setDisconnected_def)

text \<open>
  The constructor registers \<open>_setDisconnected\<close> on \<open>close\<close>; while it is registered, an
  emitted \<open>close\<close> clears the address, so that \<open>address()\<close> is null afterwards.
\<close>

lemma emit_close_address:
  "SetDisconnected \<in> set (closeListeners s) \<Longrightarrow> address (snd (emit_close s)) = None"
  by (simp add: emit_close_def Let_def split_beta run_close_listeners_snd setDisconnected_def
      address_def falsy_def)

lemma emit_close_snd:
  "snd (emit_close s) =
     (if SetDisconnected \<in> set (closeListeners s)
      then setDisconnected (s\<lparr>closeListeners := filter (\<lambda>l. l = SetDisconnected) (closeListeners s)\<rparr>)
      else s\<lparr>closeListeners := filter (\<lambda>l. l = SetDisconnected) (closeListeners s)\<rparr>)"
  by (simp add: emit_close_def Let_def split_beta run_close_listeners_snd)

lemma address_eq:
  "address s =
     (if metadata_present s
      then Some \<lparr>ai_address = the (localAddress s), ai_port = the (localPort s),
                 ai_family = the (localFamily s)\<rparr>
      else None)"
  by (auto simp: address_def metadata_present_def falsy_def split: option.splits)

lemmas address_simps = address_eq metadata_present_def

text \<open>An emitted \<open>close\<close> leaves the address as it was or clears it.\<close>

lemma emit_close_address_frame:
  "address (snd (emit_close s)) = address s \<or> address (snd (emit_close s)) = None"
  by (simp add: emit_close_snd setDisconnected_def address_simps falsy_def)

lemma Server_new_address: "address (Server_new i cb) = None"
  by (simp add: address_def falsy_def Server_new_def registerEvents_def Let_def split: option.splits)

lemma Server_new_setDisconnected: "SetDisconnected \<in> set (closeListeners (Server_new i cb))"
  by (simp add: Server_new_def registerEvents_def Let_def split: option.splits)

lemma address_metadata_present: "(address s = None) = (\<not> metadata_present s)"
  by (auto simp: address_def metadata_present_def falsy_def split: option.splits)

lemma Server_new_not_listening: "\<not> listening (Server_new i cb)"
  by (simp add: Server_new_def registerEvents_def Let_def split: option.splits)

subsection \<open>\<open>listen\<close>\<close>

text \<open>
  While an address is bound (any value other than \<open>undefined\<close>), \<open>listen\<close> throws
  \<open>ERR_SERVER_ALREADY_LISTEN\<close> and issues no native command.
\<close>

lemma listen_while_bound:
  "localAddress s \<noteq> None \<Longrightarrow> listen options callback (h, s) = Inl ERR_SERVER_ALREADY_LISTEN"
  by (simp add: listen_def)

lemma listen_registers_listener:
  "listen options callback (h, s) = Inr (fx, h', s') \<Longrightarrow> listeningListeners s' \<noteq> []"
  by (auto simp: listen_def Let_def split: if_splits)

text \<open>
  A pending \<open>listen\<close> stays pending until a \<open>listening\<close> event is processed: nothing
  else removes the \<open>once\<close> listener.
\<close>

lemma step_keeps_pending_listen:
  assumes "\<forall>i c. a \<noteq> Native (Listening i c)" and "listeningListeners s \<noteq> []"
  shows "listeningListeners (snd (snd (step a (h, s)))) \<noteq> []"
proof (cases a)
  case (Listen options callback)
  with assms(2) show ?thesis by (auto simp: step_def listen_def Let_def)
next
  case (Close callback)
  with assms(2) show ?thesis
    by (auto simp: step_def close_def Let_def split: option.splits)
next
  case (GetConnections callback)
  with assms(2) show ?thesis by (simp add: step_def getConnections_def)
next
  case Destroy
  with assms(2) show ?thesis
    by (simp add: step_def destroy_def remove_subscription_def emit_close_def Let_def split_beta
        run_close_listeners_snd setDisconnected_def split: option.splits)
next
  case (Native evt)
  with assms show ?thesis
    by (cases evt)
       (auto simp: step_def dispatch_def error_handler_def close_def emit_error_def
          connection_handler_def buildSocket_def emit_connection_def Let_def)
next
  case (SocketClose sock)
  with assms(2) show ?thesis
    by (simp add: step_def split_beta socket_close_handler_def emit_close_def Let_def
        run_close_listeners_snd setDisconnected_def)
qed

text \<open>
  C3. The specification and the doc comment of \<open>listen\<close> say that a second \<open>listen\<close>
  without an intervening close throws \<open>ERR_SERVER_ALREADY_LISTEN\<close> and issues no second
  native command, also before the \<open>listening\<close> event of the first call has been
  processed. The code at that input: the guard of \<open>listen\<close> reads \<open>_localAddress\<close>, which
  only the \<open>listening\<close> event sets, so two calls in a row both return normally and both
  issue the native \<open>listen\<close> command.
\<close>

theorem listen_twice_before_listening_event:
  "fst (run [Listen 0 None, Listen 0 None] (example_heap, Server_new 7 None)) =
     [NativeListen 7 \<lparr>port = 12345, host = Some ''0.0.0.0'', reuseAddress = None\<rparr>,
      NativeListen 7 \<lparr>port = 12345, host = Some ''0.0.0.0'', reuseAddress = None\<rparr>]"
  by (simp add: example_defs method_defs js_defs step_def Let_def)

text \<open>
  C10. \<open>listen\<close> does not change the options object of its caller: the default of \<open>host\<close>
  is written to a copy, and the copy is what the native command receives. For every
  allocated options object and every call of \<open>listen\<close> that returns, the caller's object
  is afterwards what it was, and the native command carries the caller's fields with
  \<open>host\<close> replaced by \<open>host || "0.0.0.0"\<close>. (A call that throws changes nothing.)
\<close>

theorem listen_keeps_options:
  "options < next_ref h \<Longrightarrow> listen options callback (h, s) = Inr (fx, h', s') \<Longrightarrow>
     objects h' options = objects h options \<and>
     fx = [NativeListen (srv_id s)
             ((objects h options)\<lparr>host := Some (or_default (host (objects h options)) ''0.0.0.0'')\<rparr>)]"
  by (auto simp: listen_def Let_def split: if_splits)

theorem listen_keeps_options_witness:
  "(0::nat) < next_ref example_heap \<and>
   (\<exists>fx h' s'. listen 0 None (example_heap, Server_new 7 None) = Inr (fx, h', s') \<and>
      objects h' 0 = \<lparr>port = 12345, host = None, reuseAddress = None\<rparr> \<and>
      fx = [NativeListen 7 \<lparr>port = 12345, host = Some ''0.0.0.0'', reuseAddress = None\<rparr>])"
proof -
  obtain fx h' s' where r: "listen 0 None (example_heap, Server_new 7 None) = Inr (fx, h', s')"
    by (simp add: listen_def Server_new_def registerEvents_def Let_def)
  have a: "(0::nat) < next_ref example_heap"
    by (simp add: example_heap_def)
  from listen_keeps_options [OF a r] show ?thesis
    using a r by (simp add: example_heap_def or_default_def Server_new_def registerEvents_def)
qed

subsection \<open>The \<open>listening\<close> event\<close>

text \<open>
  A \<open>listening\<close> event with the Server's id and a non-empty \<open>localAddress\<close> stores the
  three fields of the event and emits the public \<open>listening\<close> event, followed by the
  callbacks given to the pending calls of \<open>listen\<close>; \<open>listening\<close> is true afterwards if
  it was true before or a \<open>listen\<close> was pending, and \<open>address()\<close> is exactly the event's
  address, port and family.
\<close>

lemma listening_event_binds_address:
  "evt_localAddress c \<noteq> [] \<Longrightarrow>
     fst (listening_handler (srv_id s) c s) =
       EmitListening #
       concat (map (\<lambda>cb. case cb of None \<Rightarrow> [] | Some f \<Rightarrow> [ListenCallback f])
                 (listeningListeners s)) \<and>
     listening (snd (listening_handler (srv_id s) c s)) =
       (listening s \<or> listeningListeners s \<noteq> []) \<and>
     localAddress (snd (listening_handler (srv_id s) c s)) = Some (evt_localAddress c) \<and>
     localPort (snd (listening_handler (srv_id s) c s)) = Some (evt_localPort c) \<and>
     localFamily (snd (listening_handler (srv_id s) c s)) = Some (evt_localFamily c) \<and>
     address (snd (listening_handler (srv_id s) c s)) =
       Some \<lparr>ai_address = evt_localAddress c, ai_port = evt_localPort c,
             ai_family = evt_localFamily c\<rparr>"
  by (simp add: listening_handler_def emit_listening_snd emit_listening_fst address_def falsy_def)

text \<open>
  The end-to-end scenario: \<open>listen({port: 12345})\<close> on a new Server, then the \<open>listening\<close>
  event with \<open>"0.0.0.0"\<close>, 12345 and \<open>"IPv4"\<close>.
\<close>

lemma listening_event_scenario:
  "listening (snd (snd (run [Listen 0 None, Native (Listening 7 example_connection)]
      (example_heap, Server_new 7 None)))) \<and>
   address (snd (snd (run [Listen 0 None, Native (Listening 7 example_connection)]
      (example_heap, Server_new 7 None)))) =
     Some \<lparr>ai_address = ''0.0.0.0'', ai_port = 12345, ai_family = ''IPv4''\<rparr>"
  by (simp add: example_defs method_defs handler_defs emit_defs js_defs step_def Let_def)

text \<open>
  C2. The specification says that after \<open>listen\<close> and a \<open>listening\<close> event with the
  Server's id, \<open>listening\<close> is true and \<open>address()\<close> returns the address, port and family
  of the event. The code at an event whose \<open>localAddress\<close> is the empty string: the
  Server is listening and \<open>address()\<close> returns null, because \<open>address()\<close> tests
  \<open>!this._localAddress\<close>. The methods disagree about that state: a further \<open>listen\<close>
  throws \<open>ERR_SERVER_ALREADY_LISTEN\<close> (its guard tests \<open>!== undefined\<close>, so the address
  counts as bound), while \<open>close(callback)\<close> reports \<open>ERR_SERVER_NOT_RUNNING\<close>.
\<close>

theorem listening_event_empty_address:
  "listening (snd (snd (run [Listen 0 None,
       Native (Listening 7 (example_connection\<lparr>evt_localAddress := []\<rparr>))]
       (example_heap, Server_new 7 None)))) \<and>
   address (snd (snd (run [Listen 0 None,
       Native (Listening 7 (example_connection\<lparr>evt_localAddress := []\<rparr>))]
       (example_heap, Server_new 7 None)))) = None \<and>
   fst (run [Listen 0 None,
       Native (Listening 7 (example_connection\<lparr>evt_localAddress := []\<rparr>)),
       Listen 0 None, Close (Some 3)]
       (example_heap, Server_new 7 None)) =
     [NativeListen 7 \<lparr>port = 12345, host = Some ''0.0.0.0'', reuseAddress = None\<rparr>,
      EmitListening,
      Throw ERR_SERVER_ALREADY_LISTEN,
      CloseCallback 3 (Some ERR_SERVER_NOT_RUNNING)]"
  by (simp add: example_defs method_defs handler_defs emit_defs js_defs step_def Let_def)

subsection \<open>\<open>close\<close> and \<open>getConnections\<close>\<close>

text \<open>
  C4. On a Server whose address was never bound (\<open>_localAddress\<close> is \<open>undefined\<close>),
  \<open>close(callback)\<close> calls the callback at once with \<open>ERR_SERVER_NOT_RUNNING\<close>, issues no
  native command and leaves every field of the Server as it was: the only effect is the
  call of the callback, and the state returned is the state given.
\<close>

theorem close_not_running:
  "localAddress s = None \<Longrightarrow>
     close (Some callback) s = ([CloseCallback callback (Some ERR_SERVER_NOT_RUNNING)], s)"
  by (simp add: close_def falsy_def)

theorem close_not_running_witness:
  "localAddress (Server_new 7 None) = None \<and>
   close (Some 3) (Server_new 7 None) =
     ([CloseCallback 3 (Some ERR_SERVER_NOT_RUNNING)], Server_new 7 None)"
  using close_not_running [of "Server_new 7 None" 3]
  by (simp add: Server_new_def registerEvents_def)

text \<open>The connection set never holds a Socket twice, so its size is the length of the list.\<close>

lemma step_connections_distinct:
  "distinct (connections s) \<Longrightarrow> distinct (connections (snd (snd (step a (h, s)))))"
proof (cases a)
  case (Native evt)
  assume "distinct (connections s)"
  with Native show ?thesis
    by (cases evt)
       (auto simp: step_def dispatch_def listening_handler_def emit_listening_snd
          error_handler_def close_def emit_error_def connection_handler_def buildSocket_def
          emit_connection_def set_add_def Let_def split_beta)
next
  case (Listen options callback)
  assume "distinct (connections s)"
  with Listen show ?thesis by (auto simp: step_def listen_def Let_def)
next
  case (Close callback)
  assume "distinct (connections s)"
  with Close show ?thesis by (auto simp: step_def close_def Let_def split: option.splits)
next
  case (GetConnections callback)
  assume "distinct (connections s)"
  with GetConnections show ?thesis by (simp add: step_def getConnections_def)
next
  case Destroy
  assume "distinct (connections s)"
  with Destroy show ?thesis
    by (simp add: step_def destroy_def remove_subscription_def Let_def split_beta
        emit_close_connections split: option.splits)
next
  case (SocketClose sock)
  assume "distinct (connections s)"
  with SocketClose show ?thesis
    by (simp add: step_def split_beta socket_close_handler_def Let_def set_delete_def
        emit_close_connections distinct_removeAll)
qed

lemma run_connections_distinct:
  "distinct (connections (snd hs)) \<Longrightarrow> distinct (connections (snd (snd (run acts hs))))"
proof (induction acts arbitrary: hs)
  case Nil
  then show ?case by simp
next
  case (Cons a acts)
  obtain h s where hs: "hs = (h, s)" by (cases hs)
  with Cons.prems have "distinct (connections (snd (snd (step a hs))))"
    using step_connections_distinct [of s a h] by simp
  from Cons.IH [OF this] show ?case
    by (simp add: split_beta)
qed

lemma connections_size_is_card:
  "set_size (connections (snd (snd (run acts (h, Server_new i cb))))) =
     card (set (connections (snd (snd (run acts (h, Server_new i cb))))))"
proof -
  have "distinct (connections (snd (h, Server_new i cb)))"
    by (simp add: Server_new_def registerEvents_def Let_def split: option.splits)
  from run_connections_distinct [OF this] show ?thesis
    by (simp add: set_size_def distinct_card)
qed

text \<open>
  C8. \<open>getConnections(callback)\<close> calls the callback once, at once, with a null error and
  the size of the connection set; it issues no native command and changes nothing.
\<close>

theorem getConnections_reports_size:
  "getConnections callback s =
     ([GetConnectionsCallback callback None (length (connections s))], s)"
  by (simp add: getConnections_def set_size_def)

subsection \<open>Events of other endpoints\<close>

text \<open>
  C9. A native event (\<open>listening\<close>, \<open>connection\<close> or \<open>error\<close>) whose \<open>id\<close> is not the
  Server's own leaves the Server and the heap unchanged and causes no effect: no public
  notification, no callback, no native command.
\<close>

theorem foreign_event_ignored:
  "evt_id evt \<noteq> srv_id s \<Longrightarrow> dispatch evt (h, s) = ([], h, s)"
  by (cases evt) (simp_all add: evt_id_def handler_defs)

theorem foreign_event_ignored_witness:
  "evt_id (Listening 8 example_connection) \<noteq> srv_id (Server_new 7 None) \<and>
   dispatch (Listening 8 example_connection) (example_heap, Server_new 7 None) =
     ([], example_heap, Server_new 7 None)"
  using foreign_event_ignored [of "Listening 8 example_connection" "Server_new 7 None" example_heap]
  by (simp add: evt_id_def Server_new_def registerEvents_def)

subsection \<open>The \<open>error\<close> event\<close>




subsection \<open>The public \<open>close\<close> event\<close>

lemma socket_close_handler_emits:
  "(EmitClose \<in> set (fst (socket_close_handler sock s))) =
     (\<not> listening (snd (socket_close_handler sock s)) \<and>
      connections (snd (socket_close_handler sock s)) = [])"
  by (simp add: socket_close_handler_def Let_def set_size_def emit_close_fst
      emit_close_listening emit_close_connections)

lemma socket_close_handler_listening:
  "listening (snd (socket_close_handler sock s)) = listening s"
  by (simp add: socket_close_handler_def Let_def emit_close_listening)

lemma step_emits_close:
  assumes "a \<noteq> Destroy" and "EmitClose \<in> set (fst (step a (h, s)))"
  shows "\<exists>sock. a = SocketClose sock \<and> sock \<in> set (closeHandlers h) \<and>
           EmitClose \<in> set (fst (socket_close_handler sock s)) \<and>
           snd (snd (step a (h, s))) = snd (socket_close_handler sock s)"
proof (cases a)
  case (Listen options callback)
  with assms show ?thesis
    by (auto simp: step_def listen_def Let_def split: if_splits)
next
  case (Close callback)
  with assms show ?thesis
    by (auto simp: step_def close_def Let_def split: if_splits option.splits)
next
  case (GetConnections callback)
  with assms show ?thesis by (simp add: step_def getConnections_def)
next
  case Destroy
  with assms show ?thesis by simp
next
  case (Native evt)
  show ?thesis
  proof (cases evt)
    case (Listening i c)
    with Native assms show ?thesis
      by (auto simp: step_def dispatch_def listening_handler_def split_beta
          no_close_in_listening split: if_splits)
  next
    case (Error i e)
    with Native assms show ?thesis
      by (auto simp: step_def dispatch_def error_handler_def close_def emit_error_def
          Let_def split: if_splits)
  next
    case (Connection i info)
    with Native assms show ?thesis
      by (auto simp: step_def dispatch_def connection_handler_def buildSocket_def
          emit_connection_def Let_def split: if_splits)
  qed
next
  case (SocketClose sock)
  with assms show ?thesis
    by (auto simp: step_def split_beta split: if_splits)
qed

lemma socket_close_handler_connections:
  "connections (snd (socket_close_handler sock s)) = removeAll sock (connections s)"
  by (simp add: socket_close_handler_def Let_def set_delete_def emit_close_connections)

lemma step_keeps_open_socket:
  assumes "a \<noteq> SocketClose x" and "x \<in> set (connections s)"
  shows "x \<in> set (connections (snd (snd (step a (h, s)))))"
proof (cases a)
  case (Listen options callback)
  with assms(2) show ?thesis by (auto simp: step_def listen_def Let_def)
next
  case (Close callback)
  with assms(2) show ?thesis
    by (auto simp: step_def close_def Let_def split: option.splits)
next
  case (GetConnections callback)
  with assms(2) show ?thesis by (simp add: step_def getConnections_def)
next
  case Destroy
  with assms(2) show ?thesis
    by (simp add: step_def destroy_def remove_subscription_def Let_def split_beta
        emit_close_connections split: option.splits)
next
  case (Native evt)
  with assms(2) show ?thesis
    by (cases evt)
       (auto simp: step_def dispatch_def listening_handler_def emit_listening_snd
          error_handler_def close_def emit_error_def connection_handler_def buildSocket_def
          emit_connection_def set_add_def Let_def split_beta)
next
  case (SocketClose sock)
  with assms show ?thesis
    by (auto simp: step_def split_beta socket_close_handler_connections)
qed

lemma step_close_needs_empty_set:
  assumes "a \<noteq> Destroy" and "EmitClose \<in> set (fst (step a (h, s)))"
  shows "\<not> listening (snd (snd (step a (h, s)))) \<and> connections (snd (snd (step a (h, s)))) = []"
  using step_emits_close [OF assms] socket_close_handler_emits by metis

lemma run_no_close_while_socket_open:
  "Destroy \<notin> set acts \<Longrightarrow> x \<in> set (connections s) \<Longrightarrow> SocketClose x \<notin> set acts \<Longrightarrow>
     EmitClose \<notin> set (fst (run acts (h, s)))"
proof (induction acts arbitrary: h s)
  case Nil
  then show ?case by simp
next
  case (Cons a acts)
  obtain fx h1 s1 where st: "step a (h, s) = (fx, h1, s1)"
    by (cases "step a (h, s)") auto
  from Cons.prems have nd: "a \<noteq> Destroy" and nx: "a \<noteq> SocketClose x"
    and rest: "Destroy \<notin> set acts" "SocketClose x \<notin> set acts" by auto
  from step_keeps_open_socket [OF nx Cons.prems(2), of h] st have x1: "x \<in> set (connections s1)"
    by simp
  have "EmitClose \<notin> set fx"
  proof
    assume "EmitClose \<in> set fx"
    with st have "EmitClose \<in> set (fst (step a (h, s)))" by simp
    from step_close_needs_empty_set [OF nd this] st x1 show False by simp
  qed
  with Cons.IH [OF rest(1) x1 rest(2), of h1] st show ?case
    by (simp add: split_beta)
qed

text \<open>
  C1, as the code has it. Apart from \<open>destroy()\<close>, whenever the Server emits \<open>close\<close>,
  \<open>listening\<close> is false and the connection set is empty. The listener on an accepted
  Socket removes that Socket and no other from the set, leaves \<open>listening\<close> as it is, and
  emits \<open>close\<close> if and only if \<open>listening\<close> is false and the set without that Socket is
  empty. So, apart from \<open>destroy()\<close>, as long as one accepted Socket of the set has not
  itself closed, nothing makes the Server emit \<open>close\<close>: a Server closed with N open
  Sockets does not emit \<open>close\<close> before all N have closed.
\<close>

theorem close_event_only_when_drained:
  "(a \<noteq> Destroy \<and> EmitClose \<in> set (fst (step a (h, s))) \<longrightarrow>
      \<not> listening (snd (snd (step a (h, s)))) \<and> connections (snd (snd (step a (h, s)))) = []) \<and>
   connections (snd (socket_close_handler sock s)) = removeAll sock (connections s) \<and>
   listening (snd (socket_close_handler sock s)) = listening s \<and>
   ((EmitClose \<in> set (fst (socket_close_handler sock s))) =
      (\<not> listening s \<and> removeAll sock (connections s) = [])) \<and>
   (Destroy \<notin> set acts \<and> x \<in> set (connections s) \<and> SocketClose x \<notin> set acts \<longrightarrow>
      EmitClose \<notin> set (fst (run acts (h, s))))"
  using step_close_needs_empty_set [of a h s] socket_close_handler_connections [of sock s]
    socket_close_handler_listening [of sock s] socket_close_handler_emits [of sock s]
    run_no_close_while_socket_open [of acts x s h]
  by auto

text \<open>
  A Server with two open Sockets is closed: the \<open>close\<close> of the first Socket makes the
  Server emit nothing, the \<open>close\<close> of the second makes it emit \<open>close\<close>.
\<close>

theorem close_event_only_when_drained_witness:
  "Destroy \<notin> set [SocketClose \<lparr>sock_ref = 2, sock_connection = None\<rparr>] \<and>
   \<lparr>sock_ref = 3, sock_connection = None\<rparr> \<in> set (connections (snd example_closing)) \<and>
   SocketClose \<lparr>sock_ref = 3, sock_connection = None\<rparr> \<notin>
     set [SocketClose \<lparr>sock_ref = 2, sock_connection = None\<rparr>] \<and>
   EmitClose \<notin> set (fst (run [SocketClose \<lparr>sock_ref = 2, sock_connection = None\<rparr>] example_closing)) \<and>
   connections (snd (snd (run [SocketClose \<lparr>sock_ref = 2, sock_connection = None\<rparr>] example_closing))) =
     [\<lparr>sock_ref = 3, sock_connection = None\<rparr>] \<and>
   SocketClose \<lparr>sock_ref = 3, sock_connection = None\<rparr> \<noteq> Destroy \<and>
   EmitClose \<in> set (fst (step (SocketClose \<lparr>sock_ref = 3, sock_connection = None\<rparr>)
     (snd (run [SocketClose \<lparr>sock_ref = 2, sock_connection = None\<rparr>] example_closing)))) \<and>
   \<not> listening (snd (snd (step (SocketClose \<lparr>sock_ref = 3, sock_connection = None\<rparr>)
     (snd (run [SocketClose \<lparr>sock_ref = 2, sock_connection = None\<rparr>] example_closing))))) \<and>
   connections (snd (snd (step (SocketClose \<lparr>sock_ref = 3, sock_connection = None\<rparr>)
     (snd (run [SocketClose \<lparr>sock_ref = 2, sock_connection = None\<rparr>] example_closing))))) = []"
proof -
  let ?k2 = "\<lparr>sock_ref = 2, sock_connection = None\<rparr>"
  let ?k3 = "\<lparr>sock_ref = 3, sock_connection = None\<rparr>"
  let ?st = "snd (run [SocketClose ?k2] example_closing)"
  have a: "Destroy \<notin> set [SocketClose ?k2]" "SocketClose ?k3 \<notin> set [SocketClose ?k2]"
    "SocketClose ?k3 \<noteq> Destroy" by simp_all
  have b: "?k3 \<in> set (connections (snd example_closing))"
    by (simp add: example_closing_def example_defs method_defs handler_defs emit_defs js_defs
        step_def Let_def)
  have c: "connections (snd ?st) = [?k3]"
    by (simp add: example_closing_def example_defs method_defs handler_defs emit_defs js_defs
        step_def Let_def)
  have d: "EmitClose \<in> set (fst (step (SocketClose ?k3) (fst ?st, snd ?st)))"
    by (simp add: example_closing_def example_defs method_defs handler_defs emit_defs js_defs
        step_def Let_def)
  from close_event_only_when_drained [of "SocketClose ?k3" "fst ?st" "snd ?st"] a(3) d
  have e: "\<not> listening (snd (snd (step (SocketClose ?k3) ?st))) \<and>
           connections (snd (snd (step (SocketClose ?k3) ?st))) = []"
    by simp
  from close_event_only_when_drained
    [of _ "fst example_closing" "snd example_closing" _ "[SocketClose ?k2]" ?k3] a b
  have f: "EmitClose \<notin> set (fst (run [SocketClose ?k2] example_closing))"
    by simp
  from a b c d e f show ?thesis by simp
qed

text \<open>
  C1 as the specification states it fails at \<open>destroy()\<close>, which emits \<open>close\<close> whatever
  the state: here on a Server that is listening and has one open Socket.
\<close>

theorem destroy_emits_close_while_listening:
  "listening (snd (snd (run [Listen 0 None, Native (Listening 7 example_connection),
       Native (Connection 7 example_info)] (example_heap, Server_new 7 None)))) \<and>
   connections (snd (snd (run [Listen 0 None, Native (Listening 7 example_connection),
       Native (Connection 7 example_info)] (example_heap, Server_new 7 None)))) \<noteq> [] \<and>
   EmitClose \<in> set (fst (step Destroy (snd (run [Listen 0 None,
       Native (Listening 7 example_connection), Native (Connection 7 example_info)]
       (example_heap, Server_new 7 None)))))"
  by (simp add: example_defs method_defs handler_defs emit_defs js_defs step_def Let_def)

subsection \<open>\<open>listening\<close> and the bound address\<close>

lemma step_keeps_metadata_while_listening:
  assumes "ordinary a" and "listening s \<longrightarrow> metadata_present s"
  shows "listening (snd (snd (step a (h, s)))) \<longrightarrow> metadata_present (snd (snd (step a (h, s))))"
proof (cases a)
  case (Listen options callback)
  with assms(2) show ?thesis
    by (auto simp: metadata_present_def step_def listen_def Let_def)
next
  case (Close callback)
  with assms(2) show ?thesis
    by (auto simp: metadata_present_def step_def close_def Let_def split: option.splits)
next
  case (GetConnections callback)
  with assms(2) show ?thesis by (simp add: metadata_present_def step_def getConnections_def)
next
  case Destroy
  with assms(1) show ?thesis by (simp add: ordinary_def)
next
  case (Native evt)
  show ?thesis
  proof (cases evt)
    case (Listening i c)
    with Native assms show ?thesis
      by (auto simp: metadata_present_def step_def dispatch_def listening_handler_def split_beta
          ordinary_def emit_listening_snd falsy_def)
  next
    case (Error i e)
    with Native assms(2) show ?thesis
      by (auto simp: metadata_present_def step_def dispatch_def error_handler_def close_def
          emit_error_def Let_def)
  next
    case (Connection i info)
    with Native assms(2) show ?thesis
      by (auto simp: metadata_present_def step_def dispatch_def connection_handler_def
          buildSocket_def emit_connection_def Let_def)
  qed
next
  case (SocketClose sock)
  with assms(2) show ?thesis
    by (auto simp: metadata_present_def step_def split_beta socket_close_handler_def Let_def
        emit_close_listening)
qed

lemma run_keeps_metadata_while_listening:
  "list_all ordinary acts \<Longrightarrow> (listening s \<longrightarrow> metadata_present s) \<Longrightarrow>
     listening (snd (snd (run acts (h, s)))) \<longrightarrow> metadata_present (snd (snd (run acts (h, s))))"
proof (induction acts arbitrary: h s)
  case Nil
  then show ?case by simp
next
  case (Cons a acts)
  obtain fx h1 s1 where st: "step a (h, s) = (fx, h1, s1)"
    by (cases "step a (h, s)") auto
  from Cons.prems have "ordinary a" and rest: "list_all ordinary acts" by simp_all
  with Cons.prems(2) st have "listening s1 \<longrightarrow> metadata_present s1"
    using step_keeps_metadata_while_listening [of a s h] by simp
  from Cons.IH [OF rest this, of h1] st show ?case
    by (simp add: split_beta)
qed

lemma step_address_frame:
  assumes "\<forall>j c. a \<noteq> Native (Listening j c)"
  shows "(EmitClose \<notin> set (fst (step a (h, s))) \<longrightarrow>
            address (snd (snd (step a (h, s)))) = address s) \<and>
         (address (snd (snd (step a (h, s)))) = address s \<or>
            address (snd (snd (step a (h, s)))) = None)"
proof (cases a)
  case (Listen options callback)
  then show ?thesis
    by (auto simp: step_def listen_def Let_def address_simps)
next
  case (Close callback)
  then show ?thesis
    by (auto simp: step_def close_def Let_def address_simps split: option.splits)
next
  case (GetConnections callback)
  then show ?thesis by (simp add: step_def getConnections_def)
next
  case Destroy
  have "address (snd (destroy s)) = address (snd (emit_close s))"
    by (simp add: destroy_def remove_subscription_def Let_def split_beta address_simps
        split: option.splits)
  moreover have "EmitClose \<in> set (fst (destroy s))"
    by (simp add: destroy_def Let_def split_beta emit_close_fst)
  ultimately show ?thesis
    using Destroy emit_close_address_frame [of s] by (simp add: step_def split_beta)
next
  case (Native evt)
  with assms show ?thesis
    by (cases evt)
       (auto simp: step_def dispatch_def error_handler_def close_def emit_error_def
          connection_handler_def buildSocket_def emit_connection_def Let_def split_beta
          address_simps)
next
  case (SocketClose sock)
  have "address (s\<lparr>connections := set_delete sock (connections s)\<rparr>) = address s"
    by (simp add: address_simps)
  with SocketClose show ?thesis
    using emit_close_address_frame [of "s\<lparr>connections := set_delete sock (connections s)\<rparr>"]
    by (auto simp: step_def split_beta socket_close_handler_def Let_def emit_close_fst)
qed

lemma run_address_stays_null:
  "\<forall>j c. Native (Listening j c) \<notin> set acts \<Longrightarrow> address s = None \<Longrightarrow>
     address (snd (snd (run acts (h, s)))) = None"
proof (induction acts arbitrary: h s)
  case Nil
  then show ?case by simp
next
  case (Cons a acts)
  obtain fx h1 s1 where st: "step a (h, s) = (fx, h1, s1)"
    by (cases "step a (h, s)") auto
  from Cons.prems(1) have na: "\<forall>j c. a \<noteq> Native (Listening j c)"
    and rest: "\<forall>j c. Native (Listening j c) \<notin> set acts" by auto
  from step_address_frame [OF na, of h s] st Cons.prems(2) have "address s1 = None" by auto
  from Cons.IH [OF rest this, of h1] st show ?case
    by (simp add: split_beta)
qed

lemma step_keeps_setDisconnected:
  assumes "SetDisconnected \<in> set (closeListeners s)"
  shows "SetDisconnected \<in> set (closeListeners (snd (snd (step a (h, s)))))"
proof (cases a)
  case (Listen options callback)
  with assms show ?thesis by (auto simp: step_def listen_def Let_def)
next
  case (Close callback)
  with assms show ?thesis
    by (auto simp: step_def close_def Let_def split: option.splits)
next
  case (GetConnections callback)
  with assms show ?thesis by (simp add: step_def getConnections_def)
next
  case Destroy
  with assms show ?thesis
    by (simp add: step_def destroy_def remove_subscription_def Let_def split_beta
        emit_close_snd setDisconnected_def split: option.splits)
next
  case (Native evt)
  with assms show ?thesis
    by (cases evt)
       (auto simp: step_def dispatch_def listening_handler_def emit_listening_snd
          error_handler_def close_def emit_error_def connection_handler_def buildSocket_def
          emit_connection_def Let_def split_beta)
next
  case (SocketClose sock)
  with assms show ?thesis
    by (simp add: step_def split_beta socket_close_handler_def Let_def emit_close_snd
        setDisconnected_def)
qed

lemma run_keeps_setDisconnected:
  "SetDisconnected \<in> set (closeListeners s) \<Longrightarrow>
     SetDisconnected \<in> set (closeListeners (snd (snd (run acts (h, s)))))"
proof (induction acts arbitrary: h s)
  case Nil
  then show ?case by simp
next
  case (Cons a acts)
  obtain fx h1 s1 where st: "step a (h, s) = (fx, h1, s1)"
    by (cases "step a (h, s)") auto
  from step_keeps_setDisconnected [OF Cons.prems, of a h] st
  have "SetDisconnected \<in> set (closeListeners s1)" by simp
  from Cons.IH [OF this, of h1] st show ?case
    by (simp add: split_beta)
qed

lemma step_close_clears_address:
  assumes "SetDisconnected \<in> set (closeListeners s)" and "EmitClose \<in> set (fst (step a (h, s)))"
  shows "address (snd (snd (step a (h, s)))) = None"
proof (cases "a = Destroy")
  case True
  have "address (snd (destroy s)) = address (snd (emit_close s))"
    by (simp add: destroy_def remove_subscription_def Let_def split_beta address_simps
        split: option.splits)
  with True emit_close_address [OF assms(1)] show ?thesis
    by (simp add: step_def split_beta)
next
  case False
  from step_emits_close [OF False assms(2)] obtain sock where
    a: "a = SocketClose sock" and e: "EmitClose \<in> set (fst (socket_close_handler sock s))"
    and r: "snd (snd (step a (h, s))) = snd (socket_close_handler sock s)" by blast
  from e have "snd (socket_close_handler sock s) =
      snd (emit_close (s\<lparr>connections := set_delete sock (connections s)\<rparr>))"
    by (auto simp: socket_close_handler_def Let_def split: if_splits)
  with r emit_close_address [of "s\<lparr>connections := set_delete sock (connections s)\<rparr>"] assms(1)
  show ?thesis by simp
qed

text \<open>
  C5, as the code has it. For every state that a new Server can reach:
  \<^item> short of \<open>destroy()\<close> and of a \<open>listening\<close> event with an empty \<open>localAddress\<close>,
    whenever \<open>listening\<close> is true, \<open>address()\<close> is not null;
  \<^item> before the first \<open>listening\<close> event \<open>address()\<close> is null;
  \<^item> after a step in which the Server emitted \<open>close\<close>, \<open>address()\<close> is null.

  And in every state, a step that is not a \<open>listening\<close> event and in which the Server
  does not emit \<open>close\<close> leaves \<open>address()\<close> as it was: after \<open>close()\<close> the address
  stays, with \<open>listening\<close> false, until an emitted \<open>close\<close> clears it.
\<close>

theorem listening_implies_address:
  "(list_all ordinary acts \<and> listening (snd (snd (run acts (h, Server_new i cb)))) \<longrightarrow>
      address (snd (snd (run acts (h, Server_new i cb)))) \<noteq> None) \<and>
   ((\<forall>j c. Native (Listening j c) \<notin> set acts) \<longrightarrow>
      address (snd (snd (run acts (h, Server_new i cb)))) = None) \<and>
   (EmitClose \<in> set (fst (step a (snd (run acts (h, Server_new i cb))))) \<longrightarrow>
      address (snd (snd (step a (snd (run acts (h, Server_new i cb)))))) = None) \<and>
   ((\<forall>j c. a \<noteq> Native (Listening j c)) \<and> EmitClose \<notin> set (fst (step a (h', s))) \<longrightarrow>
      address (snd (snd (step a (h', s)))) = address s)"
proof -
  let ?st = "snd (run acts (h, Server_new i cb))"
  have 1: "list_all ordinary acts \<and> listening (snd ?st) \<longrightarrow> address (snd ?st) \<noteq> None"
    using run_keeps_metadata_while_listening [of acts "Server_new i cb" h] Server_new_not_listening
    by (simp add: address_metadata_present)
  have 2: "(\<forall>j c. Native (Listening j c) \<notin> set acts) \<longrightarrow> address (snd ?st) = None"
    by (simp add: run_address_stays_null Server_new_address)
  have "SetDisconnected \<in> set (closeListeners (snd ?st))"
    by (rule run_keeps_setDisconnected [OF Server_new_setDisconnected])
  from step_close_clears_address [OF this, of a "fst ?st"]
  have 3: "EmitClose \<in> set (fst (step a ?st)) \<longrightarrow> address (snd (snd (step a ?st))) = None"
    by simp
  have 4: "(\<forall>j c. a \<noteq> Native (Listening j c)) \<and> EmitClose \<notin> set (fst (step a (h', s))) \<longrightarrow>
      address (snd (snd (step a (h', s)))) = address s"
    using step_address_frame [of a h' s] by blast
  from 1 2 3 4 show ?thesis by blast
qed

theorem listening_implies_address_witness:
  "list_all ordinary [Listen 0 None, Native (Listening 7 example_connection)] \<and>
   listening (snd (snd (run [Listen 0 None, Native (Listening 7 example_connection)]
      (example_heap, Server_new 7 None)))) \<and>
   address (snd (snd (run [Listen 0 None, Native (Listening 7 example_connection)]
      (example_heap, Server_new 7 None)))) \<noteq> None \<and>
   (\<forall>j c. Native (Listening j c) \<notin> set [Listen 0 None, Close None]) \<and>
   address (snd (snd (run [Listen 0 None, Close None] (example_heap, Server_new 7 None)))) = None \<and>
   (\<forall>j c. Close None \<noteq> Native (Listening j c)) \<and>
   EmitClose \<notin> set (fst (step (Close None)
      (snd (run [Listen 0 None, Native (Listening 7 example_connection)]
         (example_heap, Server_new 7 None))))) \<and>
   address (snd (snd (step (Close None)
      (snd (run [Listen 0 None, Native (Listening 7 example_connection)]
         (example_heap, Server_new 7 None)))))) =
     Some \<lparr>ai_address = ''0.0.0.0'', ai_port = 12345, ai_family = ''IPv4''\<rparr> \<and>
   EmitClose \<in> set (fst (step (SocketClose \<lparr>sock_ref = 2, sock_connection = None\<rparr>)
      (snd (run [Listen 0 None, Native (Listening 7 example_connection),
                 Native (Connection 7 example_info), Close None]
         (example_heap, Server_new 7 None))))) \<and>
   address (snd (snd (step (SocketClose \<lparr>sock_ref = 2, sock_connection = None\<rparr>)
      (snd (run [Listen 0 None, Native (Listening 7 example_connection),
                 Native (Connection 7 example_info), Close None]
         (example_heap, Server_new 7 None)))))) = None"
proof -
  let ?l = "[Listen 0 None, Native (Listening 7 example_connection)]"
  let ?c = "[Listen 0 None, Native (Listening 7 example_connection),
             Native (Connection 7 example_info), Close None]"
  let ?k = "SocketClose \<lparr>sock_ref = 2, sock_connection = None\<rparr>"
  let ?sl = "snd (run ?l (example_heap, Server_new 7 None))"
  have a: "list_all ordinary ?l"
    by (simp add: ordinary_def example_connection_def)
  have b: "listening (snd ?sl)"
    by (simp add: example_defs method_defs handler_defs emit_defs js_defs step_def Let_def)
  have c: "\<forall>j c. Native (Listening j c) \<notin> set [Listen 0 None, Close None]" by simp
  have d: "\<forall>j c. Close None \<noteq> Native (Listening j c)" by simp
  have e: "EmitClose \<notin> set (fst (step (Close None) (fst ?sl, snd ?sl)))"
    by (simp add: example_defs method_defs handler_defs emit_defs js_defs step_def Let_def)
  have f: "address (snd ?sl) =
      Some \<lparr>ai_address = ''0.0.0.0'', ai_port = 12345, ai_family = ''IPv4''\<rparr>"
    by (simp add: example_defs method_defs handler_defs emit_defs js_defs step_def Let_def)
  have g: "EmitClose \<in> set (fst (step ?k (snd (run ?c (example_heap, Server_new 7 None)))))"
    by (simp add: example_defs method_defs handler_defs emit_defs js_defs step_def Let_def)
  from listening_implies_address [of ?l example_heap 7 None] a b
  have 1: "address (snd ?sl) \<noteq> None" by blast
  from listening_implies_address [of "[Listen 0 None, Close None]" example_heap 7 None] c
  have 2: "address (snd (snd (run [Listen 0 None, Close None] (example_heap, Server_new 7 None)))) = None"
    by blast
  from listening_implies_address [of ?c example_heap 7 None ?k] g
  have 3: "address (snd (snd (step ?k (snd (run ?c (example_heap, Server_new 7 None)))))) = None"
    by blast
  from listening_implies_address [of _ _ _ _ "Close None" "fst ?sl" "snd ?sl"] d e
  have 4: "address (snd (snd (step (Close None) (fst ?sl, snd ?sl)))) = address (snd ?sl)"
    by blast
  from a b c d e f g 1 2 3 4 show ?thesis by simp
qed

text \<open>
  C5 as the specification states it, address present if and only if listening, fails in
  both directions. After \<open>close()\<close> on a listening Server \<open>listening\<close> is false and
  \<open>address()\<close> still returns the bound address (only an emitted \<open>close\<close> clears it); after
  \<open>destroy()\<close> on a listening Server \<open>listening\<close> is still true and \<open>address()\<close> is null,
  as it is after a \<open>listening\<close> event whose \<open>localAddress\<close> is the empty string.
\<close>

theorem address_outlives_listening:
  "\<not> listening (snd (snd (run [Listen 0 None, Native (Listening 7 example_connection), Close None]
      (example_heap, Server_new 7 None)))) \<and>
   address (snd (snd (run [Listen 0 None, Native (Listening 7 example_connection), Close None]
      (example_heap, Server_new 7 None)))) =
     Some \<lparr>ai_address = ''0.0.0.0'', ai_port = 12345, ai_family = ''IPv4''\<rparr> \<and>
   listening (snd (snd (run [Listen 0 None, Native (Listening 7 example_connection), Destroy]
      (example_heap, Server_new 7 None)))) \<and>
   address (snd (snd (run [Listen 0 None, Native (Listening 7 example_connection), Destroy]
      (example_heap, Server_new 7 None)))) = None \<and>
   listening (snd (snd (run [Listen 0 None,
       Native (Listening 7 (example_connection\<lparr>evt_localAddress := []\<rparr>))]
      (example_heap, Server_new 7 None)))) \<and>
   address (snd (snd (run [Listen 0 None,
       Native (Listening 7 (example_connection\<lparr>evt_localAddress := []\<rparr>))]
      (example_heap, Server_new 7 None)))) = None"
  by (simp add: example_defs method_defs handler_defs emit_defs js_defs step_def Let_def)

subsection \<open>The \<open>connection\<close> event\<close>

lemma refs_allocated_mono:
  "list_all (\<lambda>x. sock_ref x < n) xs \<Longrightarrow> n \<le> m \<Longrightarrow> list_all (\<lambda>x. sock_ref x < m) xs"
  by (induction xs) auto

lemma step_refs_allocated:
  assumes "refs_allocated (h, s)"
  shows "refs_allocated (snd (step a (h, s)))"
proof (cases a)
  case (Listen options callback)
  with assms show ?thesis
    using refs_allocated_mono [of "next_ref h" "connections s" "Suc (next_ref h)"]
    by (auto simp: refs_allocated_def step_def listen_def Let_def)
next
  case (Close callback)
  with assms show ?thesis
    by (auto simp: refs_allocated_def step_def close_def Let_def split: option.splits)
next
  case (GetConnections callback)
  with assms show ?thesis by (simp add: refs_allocated_def step_def getConnections_def)
next
  case Destroy
  with assms show ?thesis
    by (simp add: refs_allocated_def step_def destroy_def remove_subscription_def Let_def
        split_beta emit_close_connections split: option.splits)
next
  case (Native evt)
  show ?thesis
  proof (cases evt)
    case (Listening i c)
    with Native assms show ?thesis
      by (auto simp: refs_allocated_def step_def dispatch_def listening_handler_def split_beta
          emit_listening_snd)
  next
    case (Error i e)
    with Native assms show ?thesis
      by (auto simp: refs_allocated_def step_def dispatch_def error_handler_def close_def
          emit_error_def Let_def)
  next
    case (Connection i info)
    with Native assms show ?thesis
      using refs_allocated_mono [of "next_ref h" "connections s" "Suc (next_ref h)"]
      by (auto simp: refs_allocated_def step_def dispatch_def connection_handler_def
          buildSocket_def emit_connection_def set_add_def Let_def)
  qed
next
  case (SocketClose sock)
  with assms show ?thesis
    by (auto simp: refs_allocated_def step_def split_beta socket_close_handler_def Let_def
        set_delete_def list_all_iff emit_close_connections)
qed

lemma run_refs_allocated:
  "refs_allocated hs \<Longrightarrow> refs_allocated (snd (run acts hs))"
proof (induction acts arbitrary: hs)
  case Nil
  then show ?case by simp
next
  case (Cons a acts)
  obtain h s where hs: "hs = (h, s)" by (cases hs)
  with Cons.prems have "refs_allocated (snd (step a hs))"
    using step_refs_allocated [of h s a] by simp
  from Cons.IH [OF this] show ?case
    by (simp add: split_beta)
qed

lemma Server_new_refs_allocated: "refs_allocated (h, Server_new i cb)"
  by (simp add: refs_allocated_def Server_new_def registerEvents_def Let_def split: option.splits)

lemma connection_handler_fresh:
  assumes "refs_allocated (h, s)"
  shows "connection_handler (srv_id s) info (h, s) =
     ([ConsoleWarn info, EmitConnection \<lparr>sock_ref = next_ref h, sock_connection = None\<rparr>] @
        map (\<lambda>c. ConnectionCallback c \<lparr>sock_ref = next_ref h, sock_connection = None\<rparr>)
          (connectionListeners s),
      h\<lparr>next_ref := Suc (next_ref h),
        closeHandlers := closeHandlers h @ [\<lparr>sock_ref = next_ref h, sock_connection = None\<rparr>]\<rparr>,
      s\<lparr>connections := connections s @ [\<lparr>sock_ref = next_ref h, sock_connection = None\<rparr>]\<rparr>)"
proof -
  have "\<lparr>sock_ref = next_ref h, sock_connection = None\<rparr> \<notin> set (connections s)"
    using assms by (auto simp: refs_allocated_def list_all_iff)
  then show ?thesis
    by (simp add: connection_handler_def buildSocket_def emit_connection_def set_add_def Let_def)
qed

text \<open>
  C6, as the code has it. In every state that a new Server can reach, a \<open>connection\<close>
  event with the Server's id constructs a new Socket with \<open>new Socket()\<close>: a fresh,
  unconnected object, to which the connection info of the event is not attached (the
  info is only logged). The Server registers its \<open>close\<close> listener on the Socket, adds
  the Socket to the connection set, whose size grows by one, and emits the public
  \<open>connection\<close> event with that Socket (the \<open>connection\<close> callback of the constructor is
  called with it). When the Socket later emits \<open>close\<close>, the listener removes it from the
  set.
\<close>

theorem connection_event_adds_socket:
  assumes "run acts (h0, Server_new i cb) = (fx0, h, s)"
    and "connection_handler (srv_id s) info (h, s) = (fx, h', s')"
    and "newSocket = \<lparr>sock_ref = next_ref h, sock_connection = None\<rparr>"
  shows "newSocket \<notin> set (connections s) \<and>
         connections s' = connections s @ [newSocket] \<and>
         set_size (connections s') = set_size (connections s) + 1 \<and>
         newSocket \<in> set (closeHandlers h') \<and>
         newSocket \<notin> set (connections (snd (socket_close_handler newSocket s'))) \<and>
         fx = [ConsoleWarn info, EmitConnection newSocket] @
                map (\<lambda>c. ConnectionCallback c newSocket) (connectionListeners s)"
proof -
  have ra: "refs_allocated (h, s)"
    using run_refs_allocated [OF Server_new_refs_allocated, of acts h0 i cb] assms(1) by simp
  then have fresh: "newSocket \<notin> set (connections s)"
    using assms(3) by (auto simp: refs_allocated_def list_all_iff)
  have gone: "newSocket \<notin> set (connections (snd (socket_close_handler newSocket s')))"
    by (simp add: socket_close_handler_def Let_def set_delete_def emit_close_connections)
  from connection_handler_fresh [OF ra, of info] assms(2,3) fresh gone show ?thesis
    by (auto simp: set_size_def)
qed

theorem connection_event_adds_socket_witness:
  "(\<exists>fx0 h s fx h' s'.
      run [Listen 0 None, Native (Listening 7 example_connection)]
        (example_heap, Server_new 7 (Some 4)) = (fx0, h, s) \<and>
      connection_handler (srv_id s) example_info (h, s) = (fx, h', s') \<and>
      connections s = [] \<and>
      connections s' = [\<lparr>sock_ref = 2, sock_connection = None\<rparr>] \<and>
      set_size (connections s') = 1 \<and>
      fx = [ConsoleWarn example_info, EmitConnection \<lparr>sock_ref = 2, sock_connection = None\<rparr>,
            ConnectionCallback 4 \<lparr>sock_ref = 2, sock_connection = None\<rparr>])"
proof -
  obtain fx0 h s where r: "run [Listen 0 None, Native (Listening 7 example_connection)]
        (example_heap, Server_new 7 (Some 4)) = (fx0, h, s)"
    by (cases "run [Listen 0 None, Native (Listening 7 example_connection)]
        (example_heap, Server_new 7 (Some 4))") auto
  obtain fx h' s' where c: "connection_handler (srv_id s) example_info (h, s) = (fx, h', s')"
    by (cases "connection_handler (srv_id s) example_info (h, s)") auto
  have hs: "next_ref h = 2 \<and> connections s = [] \<and> connectionListeners s = [4]"
    using r by (auto simp: example_defs method_defs handler_defs emit_defs js_defs step_def Let_def)
  from connection_event_adds_socket [OF r c refl] hs r c show ?thesis
    by (simp add: set_size_def)
qed

text \<open>
  C6 as the specification states it fails in one part: the new Socket does not carry the
  connection info of the event. \<open>_buildSocket\<close> calls \<open>new Socket()\<close> without arguments
  and its two lines that would set the id and the connection are disabled, so the
  accepted Socket has no connection data, and two events with different info build the
  same Socket.
\<close>

theorem accepted_socket_carries_no_info:
  "map sock_connection (connections (snd (snd (connection_handler 7 example_info
       (example_heap, Server_new 7 None))))) = [None] \<and>
   info_connection example_info = example_connection \<and>
   fst (snd (buildSocket example_info example_heap)) =
     fst (snd (buildSocket \<lparr>info_id = 10, info_connection =
        \<lparr>evt_localAddress = ''10.0.0.5'', evt_localPort = 80, evt_localFamily = ''IPv4''\<rparr>\<rparr>
        example_heap))"
  by (simp add: example_defs method_defs handler_defs emit_defs js_defs Let_def)

end
